theory Spec2Isabelle
  imports Complex_Main "HOL-Library.Multiset"
begin

section \<open>The friendship graph of \<open>PageRankApp\<close> (\<open>week5/app.js\<close>)\<close>

text \<open>
  The class \<open>PageRankApp\<close> keeps a graph, the PageRank scores computed for it and
  some view state. The graph is built from text by \<open>parseCSVToGraph\<close>, edited by
  \<open>connectNodes\<close>, scored by the engine behind \<open>computePageRank\<close> and queried by
  \<open>getRecommendations\<close>.

  Numbers. A node identifier is a JavaScript number that is not \<open>NaN\<close>. On these values
  the comparator \<open>(a, b) => a - b\<close>, \<open>Set\<close> membership and \<open>Array.includes\<close> (both
  SameValueZero, under which \<open>-0\<close> and \<open>+0\<close> are one value) and the property key
  \<open>String(n)\<close> all agree with one linear order and its equality, so the identifiers are
  modelled by an arbitrary linearly ordered type \<open>'n\<close>. A value that may be \<open>NaN\<close> or
  \<open>undefined\<close> is an \<open>'n option\<close>, with \<open>None\<close> for both (\<open>isNaN\<close> is true of
  both). The built-in conversions \<open>Number\<close> (text to number) and \<open>parseInt\<close> are
  parameters of the functions that call them, so that every theorem below holds for the
  conversions of the language, whatever they return.
\<close>

subsection \<open>Text: \<open>trim\<close> and \<open>split\<close>\<close>

text \<open>
  \<open>String.prototype.trim\<close> removes white space and line terminators from both ends.
  Among the character codes below 256 these are 9 to 13, 32 and 160.
\<close>

definition isWhiteSpace :: "char \<Rightarrow> bool" where
  "isWhiteSpace c = (of_char c \<in> {9, 10, 11, 12, 13, 32, 160 :: nat})"

definition trim :: "string \<Rightarrow> string" where
  "trim s = rev (dropWhile isWhiteSpace (rev (dropWhile isWhiteSpace s)))"

text \<open>
  \<open>s.split(sep)\<close> for a separator of one character: the pieces between the
  separators, in order; always at least one piece (\<open>''.split(',')\<close> is \<open>['']\<close>).
\<close>

fun split :: "char \<Rightarrow> string \<Rightarrow> string list" where
  "split sep [] = [[]]"
| "split sep (c # cs) =
     (if c = sep then [] # split sep cs
      else (case split sep cs of
              [] \<Rightarrow> [[c]]
            | f # fs \<Rightarrow> (c # f) # fs))"

subsection \<open>The graph and \<open>parseCSVToGraph\<close>\<close>

text \<open>
  The object \<open>{ nodes, edges, adjacencyList }\<close>: \<open>nodes\<close> is the array of \<open>{id}\<close>
  objects (here the list of the ids), \<open>edges\<close> the array of \<open>{source, target}\<close>
  objects, \<open>adjacencyList\<close> the object that maps a node (its key \<open>String(n)\<close>) to
  its array of neighbours. Each array of neighbours is created by its own \<open>[]\<close>, so no
  two keys share one.
\<close>

record 'n edge =
  source :: 'n
  target :: 'n

record 'n graph =
  nodes :: "'n list"
  edges :: "'n edge list"
  adjacencyList :: "'n \<rightharpoonup> 'n list"

text \<open>
  One line of the loop: \<open>const [source, target] = line.split(',').map(Number)\<close>
  followed by the test \<open>!isNaN(source) && !isNaN(target)\<close>. The destructuring takes
  the first two converted fields; a missing second field is \<open>undefined\<close>.
  The result is the edge that the line contributes, if any.
\<close>

definition parseLine :: "(string \<Rightarrow> 'n option) \<Rightarrow> string \<Rightarrow> 'n edge option" where
  "parseLine toNumber line =
     (case map toNumber (split CHR '','' line) of
        Some s # Some t # rest \<Rightarrow> Some \<lparr>source = s, target = t\<rparr>
      | _ \<Rightarrow> None)"

text \<open>\<open>Set.prototype.add\<close> on the insertion-ordered set \<open>nodes\<close>.\<close>

definition setAdd :: "'n \<Rightarrow> 'n list \<Rightarrow> 'n list" where
  "setAdd x xs = (if x \<in> set xs then xs else xs @ [x])"

text \<open>
  The \<open>for (const line of lines)\<close> loop, threading the two accumulators
  \<open>edges\<close> and \<open>nodes\<close>.
\<close>

fun readLines :: "(string \<Rightarrow> 'n option) \<Rightarrow> string list \<Rightarrow> 'n edge list \<times> 'n list
                    \<Rightarrow> 'n edge list \<times> 'n list" where
  "readLines toNumber [] acc = acc"
| "readLines toNumber (line # lines) (es, ns) =
     (case parseLine toNumber line of
        None \<Rightarrow> readLines toNumber lines (es, ns)
      | Some e \<Rightarrow> readLines toNumber lines (es @ [e], setAdd (target e) (setAdd (source e) ns)))"

text \<open>
  \<open>if (adjacencyList[a] && !adjacencyList[a].includes(b)) adjacencyList[a].push(b)\<close>:
  an array is truthy, a missing key gives \<open>undefined\<close>.
\<close>

definition addNeighbour :: "'n \<Rightarrow> 'n \<Rightarrow> ('n \<rightharpoonup> 'n list) \<Rightarrow> ('n \<rightharpoonup> 'n list)" where
  "addNeighbour a b adj =
     (case adj a of
        None \<Rightarrow> adj
      | Some ns \<Rightarrow> if b \<in> set ns then adj else adj(a \<mapsto> ns @ [b]))"

text \<open>The body of \<open>edges.forEach\<close>, and the loop itself.\<close>

definition addEdge :: "'n edge \<Rightarrow> ('n \<rightharpoonup> 'n list) \<Rightarrow> ('n \<rightharpoonup> 'n list)" where
  "addEdge e adj = addNeighbour (target e) (source e) (addNeighbour (source e) (target e) adj)"

fun addEdges :: "'n edge list \<Rightarrow> ('n \<rightharpoonup> 'n list) \<Rightarrow> ('n \<rightharpoonup> 'n list)" where
  "addEdges [] adj = adj"
| "addEdges (e # es) adj = addEdges es (addEdge e adj)"

text \<open>\<open>sorted.forEach(node => { adjacencyList[node] = []; })\<close> on the empty object.\<close>

fun emptyLists :: "'n list \<Rightarrow> ('n \<rightharpoonup> 'n list) \<Rightarrow> ('n \<rightharpoonup> 'n list)" where
  "emptyLists [] adj = adj"
| "emptyLists (n # ns) adj = emptyLists ns (adj(n \<mapsto> []))"

text \<open>
  \<open>Array.from(nodes).sort((a, b) => a - b)\<close> sorts distinct numbers with a consistent
  comparator, so the result is the ascending list: \<open>sort\<close>.
\<close>

definition parseCSVToGraph :: "(string \<Rightarrow> 'n::linorder option) \<Rightarrow> string \<Rightarrow> 'n graph" where
  "parseCSVToGraph toNumber csvText =
     (let lines = split CHR 0x0A (trim csvText);
          (es, ns) = readLines toNumber lines ([], []);
          adj = addEdges es (emptyLists (sort ns) Map.empty)
      in \<lparr>nodes = sort ns, edges = es, adjacencyList = adj\<rparr>)"

subsection \<open>The application state\<close>

text \<open>
  The fields set by the constructor. \<open>graph\<close> and \<open>pageRankScores\<close> start as
  \<open>null\<close>. A ScoreMap gives a score (a real number, never \<open>NaN\<close>) to every node
  identifier it is asked about: it is a function from identifiers to reals.
\<close>

datatype error = TypeError | InvalidInput

record 'n app =
  graph :: "'n graph option"
  pageRankScores :: "('n \<Rightarrow> real) option"
  selectedNode :: "'n option"
  isComputing :: bool
  sortBy :: string
  sortOrder :: string

definition constructor :: "'n app" where
  "constructor = \<lparr>graph = None, pageRankScores = None, selectedNode = None,
                  isComputing = False, sortBy = ''id'', sortOrder = ''asc''\<rparr>"

subsection \<open>\<open>getRecommendations\<close>\<close>

record 'n recommendation =
  node :: 'n
  score :: real

text \<open>
  \<open>getRecommendations(nodeId)\<close>. The first line returns \<open>[]\<close> when there are no
  scores. Reading \<open>this.graph.adjacencyList\<close> raises a \<open>TypeError\<close> when
  \<open>this.graph\<close> is \<open>null\<close>. \<open>currentFriends\<close> is the set of the neighbours of
  \<open>nodeId\<close> (none when the key is missing) to which \<open>parseInt(nodeId)\<close> is added;
  adding \<open>NaN\<close> excludes no node. The comparator \<open>b.score - a.score\<close> is consistent
  and \<open>Array.prototype.sort\<close> is stable, so the sort is the stable sort by
  descending score; \<open>slice(0, 3)\<close> keeps the first three.
\<close>

definition getRecommendations ::
  "('n \<Rightarrow> 'n option) \<Rightarrow> 'n app \<Rightarrow> 'n \<Rightarrow> error + 'n recommendation list" where
  "getRecommendations parseInt this nodeId =
     (case pageRankScores this of
        None \<Rightarrow> Inr []
      | Some scores \<Rightarrow>
          (case graph this of
             None \<Rightarrow> Inl TypeError
           | Some g \<Rightarrow>
               let currentFriends =
                     (case adjacencyList g nodeId of None \<Rightarrow> [] | Some ns \<Rightarrow> ns)
                     @ (case parseInt nodeId of None \<Rightarrow> [] | Some k \<Rightarrow> [k]);
                   recommendations =
                     map (\<lambda>v. \<lparr>node = v, score = scores v\<rparr>)
                       (filter (\<lambda>v. v \<notin> set currentFriends) (nodes g))
               in Inr (take 3 (sort_key (\<lambda>r. - score r) recommendations))))"

subsection \<open>\<open>computePageRank\<close>, the method\<close>

text \<open>
  The method is \<open>async\<close>: it runs up to \<open>await computePageRank(...)\<close>, the call of
  the engine, and its continuation runs when the engine's promise settles; other
  handlers may run in between. The state of the system is the application object
  together with the number of engine computations that were started by the method and
  have not settled yet.

  The element \<open>computeBtn\<close> exists in the page; the updates of the button, the table
  and the drawing are not part of the state.
\<close>

type_synonym 'n sys = "'n app \<times> nat"

text \<open>
  Up to the \<open>await\<close>. The guard returns at once. Reading
  \<open>this.graph.adjacencyList\<close> inside \<open>try\<close> raises a \<open>TypeError\<close> when there is
  no graph: \<open>catch\<close> reports it and \<open>finally\<close> clears the flag. Otherwise the
  engine is called with the adjacency list, 50 and 0.85.
\<close>

definition computePageRank_begin :: "'n sys \<Rightarrow> 'n sys" where
  "computePageRank_begin s =
     (let (this, inFlight) = s in
      if isComputing this then s
      else (case graph this of
              None \<Rightarrow> (this\<lparr>isComputing := False\<rparr>, inFlight)
            | Some g \<Rightarrow> (this\<lparr>isComputing := True\<rparr>, Suc inFlight)))"

text \<open>
  The continuation, run with what the engine produced: a ScoreMap (the assignment to
  \<open>this.pageRankScores\<close> happens, then the views are updated) or a thrown value
  (\<open>catch\<close> reports it). \<open>finally\<close> clears the flag in both cases, also when an
  update of the views throws after the assignment.
\<close>

definition computePageRank_resume :: "error + ('n \<Rightarrow> real) \<Rightarrow> 'n sys \<Rightarrow> 'n sys" where
  "computePageRank_resume outcome s =
     (let (this, inFlight) = s in
      if inFlight = 0 then s
      else (case outcome of
              Inl err \<Rightarrow> (this\<lparr>isComputing := False\<rparr>, inFlight - 1)
            | Inr scores \<Rightarrow>
                (this\<lparr>pageRankScores := Some scores, isComputing := False\<rparr>, inFlight - 1)))"

text \<open>The whole method when nothing else runs before the engine settles.\<close>

definition computePageRank_run :: "error + ('n \<Rightarrow> real) \<Rightarrow> 'n sys \<Rightarrow> 'n sys" where
  "computePageRank_run outcome s =
     (if isComputing (fst s) \<or> graph (fst s) = None then computePageRank_begin s
      else computePageRank_resume outcome (computePageRank_begin s))"

subsection \<open>\<open>connectNodes\<close>, \<open>resetGraph\<close> and the handlers\<close>

text \<open>
  \<open>connectNodes(sourceId, targetId)\<close> mutates the graph in place, statement by
  statement, so what was done before a \<open>TypeError\<close> stays done: the result is the
  error, if any, and the state reached. \<open>undefined.includes\<close> is the \<open>TypeError\<close>
  of a missing key. The method ends by calling \<open>this.computePageRank()\<close>.
\<close>

definition pushNeighbour :: "'n \<Rightarrow> 'n \<Rightarrow> 'n graph \<Rightarrow> error + 'n graph" where
  "pushNeighbour a b g =
     (case adjacencyList g a of
        None \<Rightarrow> Inl TypeError
      | Some ns \<Rightarrow>
          Inr (if b \<in> set ns then g
               else g\<lparr>adjacencyList := (adjacencyList g)(a \<mapsto> ns @ [b])\<rparr>))"

definition connectNodes :: "'n \<Rightarrow> 'n \<Rightarrow> 'n sys \<Rightarrow> error option \<times> 'n sys" where
  "connectNodes sourceId targetId s =
     (let (this, inFlight) = s in
      case graph this of
        None \<Rightarrow> (Some TypeError, s)
      | Some g \<Rightarrow>
          let g1 = g\<lparr>edges := edges g @ [\<lparr>source = sourceId, target = targetId\<rparr>]\<rparr> in
          (case pushNeighbour sourceId targetId g1 of
             Inl err \<Rightarrow> (Some err, (this\<lparr>graph := Some g1\<rparr>, inFlight))
           | Inr g2 \<Rightarrow>
               (case pushNeighbour targetId sourceId g2 of
                  Inl err \<Rightarrow> (Some err, (this\<lparr>graph := Some g2\<rparr>, inFlight))
                | Inr g3 \<Rightarrow> (None, computePageRank_begin (this\<lparr>graph := Some g3\<rparr>, inFlight)))))"

text \<open>
  \<open>resetGraph\<close> clears the scores and the view state and starts \<open>loadDefaultData\<close>,
  which is \<open>async\<close> too and stores the graph it has built when it is done.
\<close>

definition resetGraph :: "'n sys \<Rightarrow> 'n sys" where
  "resetGraph s =
     (let (this, inFlight) = s in
      (this\<lparr>pageRankScores := None, selectedNode := None,
            sortBy := ''id'', sortOrder := ''asc''\<rparr>, inFlight))"

definition graphLoaded :: "'n graph \<Rightarrow> 'n sys \<Rightarrow> 'n sys" where
  "graphLoaded g s = (let (this, inFlight) = s in (this\<lparr>graph := Some g\<rparr>, inFlight))"

text \<open>
  What can happen to the application, one handler at a time: the compute button, a
  Connect button, the reset button, the end of a load, the engine settling.
\<close>

datatype 'n event =
    ComputeClicked
  | ConnectClicked 'n 'n
  | ResetClicked
  | DataLoaded "'n graph"
  | EngineSettled "error + ('n \<Rightarrow> real)"

fun handle :: "'n event \<Rightarrow> 'n sys \<Rightarrow> 'n sys" where
  "handle ComputeClicked s = computePageRank_begin s"
| "handle (ConnectClicked a b) s = snd (connectNodes a b s)"
| "handle ResetClicked s = resetGraph s"
| "handle (DataLoaded g) s = graphLoaded g s"
| "handle (EngineSettled outcome) s = computePageRank_resume outcome s"

fun run :: "'n event list \<Rightarrow> 'n sys \<Rightarrow> 'n sys" where
  "run [] s = s"
| "run (e # es) s = run es (handle e s)"

definition start :: "'n sys" where
  "start = (constructor, 0)"

text \<open>
  The flag and the computations in flight go together: at most one computation is in
  flight, and the flag is set exactly when one is.
\<close>

definition guarded :: "'n sys \<Rightarrow> bool" where
  "guarded s = (snd s \<le> 1 \<and> (isComputing (fst s) \<longleftrightarrow> snd s = 1))"

subsection \<open>Properties of an adjacency relation\<close>

text \<open>
  The neighbour list of a node, empty for a node that is not a key (as in
  \<open>adjacencyList[nodeId] || []\<close>), and the three properties the data model asks of
  an adjacency relation.
\<close>

definition neighbours :: "('n \<rightharpoonup> 'n list) \<Rightarrow> 'n \<Rightarrow> 'n list" where
  "neighbours adj a = (case adj a of None \<Rightarrow> [] | Some ns \<Rightarrow> ns)"

definition symmetric :: "('n \<rightharpoonup> 'n list) \<Rightarrow> bool" where
  "symmetric adj = (\<forall>a b. b \<in> set (neighbours adj a) \<longrightarrow> a \<in> set (neighbours adj b))"

definition noDuplicates :: "('n \<rightharpoonup> 'n list) \<Rightarrow> bool" where
  "noDuplicates adj = (\<forall>a. distinct (neighbours adj a))"

definition noSelfLoops :: "('n \<rightharpoonup> 'n list) \<Rightarrow> bool" where
  "noSelfLoops adj = (\<forall>a. a \<notin> set (neighbours adj a))"

text \<open>
  The text format in the words of the specification: a line is well formed when it has
  at least two comma-separated fields and the first two both convert to numbers; such
  a line stands for the pair of these two numbers.
\<close>

definition wellFormed :: "(string \<Rightarrow> 'n option) \<Rightarrow> string \<Rightarrow> bool" where
  "wellFormed toNumber line =
     (let fields = split CHR '','' line
      in 2 \<le> length fields \<and> toNumber (fields ! 0) \<noteq> None \<and> toNumber (fields ! 1) \<noteq> None)"

definition pairOf :: "(string \<Rightarrow> 'n option) \<Rightarrow> string \<Rightarrow> 'n edge" where
  "pairOf toNumber line =
     (let fields = split CHR '','' line
      in \<lparr>source = the (toNumber (fields ! 0)), target = the (toNumber (fields ! 1))\<rparr>)"

subsection \<open>The conversions on decimal integers\<close>

text \<open>
  Two instances of the conversions, for evaluating the functions above on concrete
  texts with integer identifiers.

  \<open>Number_dec\<close> is \<open>Number\<close> on the texts that consist of white space around an
  optionally signed string of decimal digits whose value is a number of the language
  (every integer up to \<open>2^53\<close>, and \<open>10^21\<close>), and on the texts of white space
  only, which convert to 0. \<open>Number\<close> accepts further forms
  (fractions, exponents, radix prefixes, \<open>Infinity\<close>), on which this instance gives
  \<open>None\<close>; it is applied to no such text below.
\<close>

definition digitOf :: "char \<Rightarrow> int option" where
  "digitOf c = (let k = of_char c in if 48 \<le> k \<and> k \<le> (57::int) then Some (k - 48) else None)"

fun digitsValue :: "int \<Rightarrow> string \<Rightarrow> int option" where
  "digitsValue acc [] = Some acc"
| "digitsValue acc (c # cs) =
     (case digitOf c of None \<Rightarrow> None | Some d \<Rightarrow> digitsValue (10 * acc + d) cs)"

definition Number_dec :: "string \<Rightarrow> int option" where
  "Number_dec s =
     (case trim s of
        [] \<Rightarrow> Some 0
      | c # cs \<Rightarrow>
          if c = CHR ''-'' then (if cs = [] then None else map_option uminus (digitsValue 0 cs))
          else if c = CHR ''+'' then (if cs = [] then None else digitsValue 0 cs)
          else digitsValue 0 (c # cs))"

text \<open>
  \<open>parseInt(n)\<close> for a number \<open>n\<close> converts \<open>n\<close> to text and reads the integer at
  the start of the text. An integer below \<open>10^21\<close> in magnitude is printed as its
  decimal digits, which are read back. From \<open>10^21\<close> on the text is in exponent
  notation (\<open>1e+21\<close> for \<open>10^21\<close>), of which the digit before the point or the
  \<open>e\<close> is read: the first digit of the shortest decimal text of the number, taken
  here as the first decimal digit of its value.
\<close>

function leadingDigit :: "int \<Rightarrow> int" where
  "leadingDigit n = (if n < 10 then n else leadingDigit (n div 10))"
  by pat_completeness auto
termination
  by (relation "measure nat") auto

declare leadingDigit.simps [simp del]

definition parseInt_dec :: "int \<Rightarrow> int option" where
  "parseInt_dec n =
     (if \<bar>n\<bar> < 10 ^ 21 then Some n else Some (sgn n * leadingDigit \<bar>n\<bar>))"

text \<open>
  An application object for the evaluations: the graph of a text and a ScoreMap that
  gives 0.5 to node 1, 0.3 to node 2 and 0.2 to every other node.
\<close>

definition exampleScores :: "int \<Rightarrow> real" where
  "exampleScores v = (if v = 1 then 1 / 2 else if v = 2 then 3 / 10 else 1 / 5)"

definition exampleApp :: "string \<Rightarrow> int app" where
  "exampleApp csvText =
     constructor\<lparr>graph := Some (parseCSVToGraph Number_dec csvText),
                 pageRankScores := Some exampleScores\<rparr>"

text \<open>Two texts: three separate pairs, and a graph with the identifier \<open>10^21\<close>.\<close>

definition pairsText :: string where
  "pairsText = ''1,2\<newline>3,4\<newline>5,6''"

definition bigIdText :: string where
  "bigIdText = ''1,2\<newline>1000000000000000000000,2''"

section \<open>The engine\<close>

text \<open>
  The method calls the global function \<open>computePageRank(adjacencyList, 50, 0.85)\<close>.
  Its file is not among the sources, so the engine is taken from section 4.1 of the
  specification, where it is called \<open>compute\<close>. An adjacency relation is given by
  its entries, the pairs of a key and its neighbour list; a ScoreMap likewise.
  Scores are real numbers and the arithmetic is exact.
\<close>

type_synonym 'n AdjacencyRelation = "('n \<times> 'n list) list"

type_synonym 'n ScoreMap = "('n \<times> real) list"

text \<open>Modelled from the spec: the node set of the engine is exactly \<open>keys(adjacency)\<close>.\<close>

definition keys :: "'n AdjacencyRelation \<Rightarrow> 'n list" where
  "keys adjacency = remdups (map fst adjacency)"

text \<open>Modelled from the spec: \<open>neighbors(u)\<close> and \<open>degree(u) = |neighbors(u)|\<close>.\<close>

definition neighbors :: "'n AdjacencyRelation \<Rightarrow> 'n \<Rightarrow> 'n list" where
  "neighbors adjacency u = (case map_of adjacency u of None \<Rightarrow> [] | Some ns \<Rightarrow> ns)"

definition degree :: "'n AdjacencyRelation \<Rightarrow> 'n \<Rightarrow> nat" where
  "degree adjacency u = length (neighbors adjacency u)"

text \<open>Modelled from the spec: the score of a node in a ScoreMap of the engine.\<close>

definition scoreOf :: "'n ScoreMap \<Rightarrow> 'n \<Rightarrow> real" where
  "scoreOf scores u = (case map_of scores u of None \<Rightarrow> 0 | Some x \<Rightarrow> x)"

text \<open>
  Modelled from the spec: step 3a of the engine, the new score of \<open>v\<close>,
  \<open>(1 - dampingFactor)/N + dampingFactor * \<Sum> oldScore[u] / degree(u)\<close> over the
  neighbours \<open>u\<close> of \<open>v\<close>. A node of degree 0 contributes nothing to the sum. The
  specification leaves open whether the score of the dangling nodes is lost or spread
  over all \<open>N\<close> nodes; \<open>redistribute\<close> selects the second.
\<close>

definition newScore ::
  "bool \<Rightarrow> 'n AdjacencyRelation \<Rightarrow> real \<Rightarrow> 'n ScoreMap \<Rightarrow> 'n \<Rightarrow> real" where
  "newScore redistribute adjacency dampingFactor oldScore v =
     (let N = real (length (keys adjacency));
          pulled = (\<Sum>u\<leftarrow>neighbors adjacency v.
                      if degree adjacency u = 0 then 0
                      else scoreOf oldScore u / real (degree adjacency u));
          dangling = (if redistribute
                      then (\<Sum>u\<leftarrow>filter (\<lambda>u. degree adjacency u = 0) (keys adjacency).
                              scoreOf oldScore u) / N
                      else 0)
      in (1 - dampingFactor) / N + dampingFactor * (pulled + dangling))"

text \<open>
  Modelled from the spec: one iteration of the engine computes every new score from
  the scores of the iteration before.
\<close>

definition iteration ::
  "bool \<Rightarrow> 'n AdjacencyRelation \<Rightarrow> real \<Rightarrow> 'n ScoreMap \<Rightarrow> 'n ScoreMap" where
  "iteration redistribute adjacency dampingFactor oldScore =
     map (\<lambda>v. (v, newScore redistribute adjacency dampingFactor oldScore v)) (keys adjacency)"

text \<open>
  Modelled from the spec: step 3b of the engine, the total absolute difference between
  two ScoreMaps, and the convergence tolerance with its recommended default.
\<close>

definition totalChange :: "'n AdjacencyRelation \<Rightarrow> 'n ScoreMap \<Rightarrow> 'n ScoreMap \<Rightarrow> real" where
  "totalChange adjacency newScores oldScore =
     (\<Sum>v\<leftarrow>keys adjacency. \<bar>scoreOf newScores v - scoreOf oldScore v\<bar>)"

definition tolerance :: real where
  "tolerance = 1 / 10 ^ 6"

text \<open>
  Modelled from the spec: step 3 of the engine, at most the given number of iterations,
  stopping after the update whose total change is below the tolerance.
\<close>

fun iterations ::
  "nat \<Rightarrow> bool \<Rightarrow> 'n AdjacencyRelation \<Rightarrow> real \<Rightarrow> 'n ScoreMap \<Rightarrow> 'n ScoreMap" where
  "iterations 0 redistribute adjacency dampingFactor oldScore = oldScore"
| "iterations (Suc k) redistribute adjacency dampingFactor oldScore =
     (let newScores = iteration redistribute adjacency dampingFactor oldScore
      in if totalChange adjacency newScores oldScore < tolerance then newScores
         else iterations k redistribute adjacency dampingFactor newScores)"

text \<open>
  Modelled from the spec: the failure conditions of the engine, \<open>maxIterations <= 0\<close>,
  \<open>dampingFactor\<close> not in (0,1), or a neighbour identifier that is not a key.
\<close>

definition invalidInput :: "'n AdjacencyRelation \<Rightarrow> int \<Rightarrow> real \<Rightarrow> bool" where
  "invalidInput adjacency maxIterations dampingFactor =
     (maxIterations \<le> 0
      \<or> \<not> (0 < dampingFactor \<and> dampingFactor < 1)
      \<or> (\<exists>entry \<in> set adjacency. \<exists>v \<in> set (snd entry). v \<notin> fst ` set adjacency))"

text \<open>
  Modelled from the spec: the engine \<open>compute(adjacency, maxIterations, dampingFactor)\<close>.
  It signals a failure at once, before any computation; with no node it returns the
  empty map; otherwise every score starts at \<open>1/N\<close> and the iterations run.
\<close>

definition compute ::
  "bool \<Rightarrow> 'n AdjacencyRelation \<Rightarrow> int \<Rightarrow> real \<Rightarrow> error + 'n ScoreMap" where
  "compute redistribute adjacency maxIterations dampingFactor =
     (if invalidInput adjacency maxIterations dampingFactor then Inl InvalidInput
      else if keys adjacency = [] then Inr []
      else Inr (iterations (nat maxIterations) redistribute adjacency dampingFactor
                  (map (\<lambda>v. (v, 1 / real (length (keys adjacency)))) (keys adjacency))))"





section \<open>The graph built from text\<close>

text \<open>\<open>split\<close> returns at least one piece, so the first field of a line always exists.\<close>

lemma split_nonempty: "split sep s \<noteq> []"
  by (induction s) (auto split: list.splits)

lemma setAdd_set: "set (setAdd x xs) = insert x (set xs)"
  by (auto simp: setAdd_def)

lemma setAdd_distinct: "distinct xs \<Longrightarrow> distinct (setAdd x xs)"
  by (auto simp: setAdd_def)

lemma readLines_edges:
  "fst (readLines f ls (es, ns)) = es @ List.map_filter (parseLine f) ls"
  by (induction ls arbitrary: es ns) (auto split: option.splits)

lemma readLines_nodes:
  "set (snd (readLines f ls (es, ns))) =
     set ns \<union> source ` set (List.map_filter (parseLine f) ls)
            \<union> target ` set (List.map_filter (parseLine f) ls)"
  by (induction ls arbitrary: es ns) (auto simp: setAdd_set split: option.splits)

lemma readLines_distinct:
  "distinct ns \<Longrightarrow> distinct (snd (readLines f ls (es, ns)))"
  by (induction ls arbitrary: es ns) (auto simp: setAdd_distinct split: option.splits)

lemma emptyLists_dom: "dom (emptyLists ns adj) = dom adj \<union> set ns"
  by (induction ns arbitrary: adj) auto

lemma emptyLists_neighbours:
  "neighbours (emptyLists ns adj) a = (if a \<in> set ns then [] else neighbours adj a)"
  by (induction ns arbitrary: adj) (auto simp: neighbours_def)

lemma neighbours_Some: "adj a = Some ns \<Longrightarrow> neighbours adj a = ns"
  by (simp add: neighbours_def)

lemma neighbours_upd: "neighbours (adj(a \<mapsto> v)) x = (if x = a then v else neighbours adj x)"
  by (simp add: neighbours_def)

lemma addNeighbour_None: "adj a = None \<Longrightarrow> addNeighbour a b adj = adj"
  by (simp add: addNeighbour_def)

lemma addNeighbour_Some:
  "adj a = Some ns \<Longrightarrow> addNeighbour a b adj = (if b \<in> set ns then adj else adj(a \<mapsto> ns @ [b]))"
  by (simp add: addNeighbour_def)

lemma addNeighbour_dom: "dom (addNeighbour a b adj) = dom adj"
proof (cases "adj a")
  case None
  then show ?thesis by (simp add: addNeighbour_None [of adj a b])
next
  case (Some ns)
  then have "a \<in> dom adj" by (simp add: domIff)
  then show ?thesis by (simp add: addNeighbour_Some [of adj a ns b, OF Some] insert_absorb)
qed

lemma addNeighbour_set:
  "set (neighbours (addNeighbour a b adj) x) =
     set (neighbours adj x) \<union> (if x = a \<and> a \<in> dom adj then {b} else {})"
proof (cases "adj a")
  case None
  then have "a \<notin> dom adj" by (simp add: domIff)
  then show ?thesis by (simp add: addNeighbour_None [of adj a b, OF None])
next
  case (Some ns)
  then have d: "a \<in> dom adj" by (simp add: domIff)
  have n: "neighbours adj a = ns" by (rule neighbours_Some [of adj a ns, OF Some])
  show ?thesis
  proof (cases "b \<in> set ns")
    case True
    then show ?thesis using d n by (simp add: addNeighbour_Some [of adj a ns b, OF Some] insert_absorb)
  next
    case False
    then show ?thesis using d n by (simp add: addNeighbour_Some [of adj a ns b, OF Some] neighbours_upd)
  qed
qed

lemma addNeighbour_distinct:
  assumes "distinct (neighbours adj x)"
  shows "distinct (neighbours (addNeighbour a b adj) x)"
proof (cases "adj a")
  case None
  then show ?thesis using assms by (simp add: addNeighbour_None [of adj a b])
next
  case (Some ns)
  have n: "neighbours adj a = ns" by (rule neighbours_Some [of adj a ns, OF Some])
  show ?thesis
  proof (cases "b \<in> set ns")
    case True
    then show ?thesis using assms by (simp add: addNeighbour_Some [of adj a ns b, OF Some])
  next
    case False
    then show ?thesis using assms n by (auto simp add: addNeighbour_Some [of adj a ns b, OF Some] neighbours_upd)
  qed
qed

lemma addEdge_dom: "dom (addEdge e adj) = dom adj"
  by (simp add: addEdge_def addNeighbour_dom)

lemma addEdge_set:
  "set (neighbours (addEdge e adj) x) =
     set (neighbours adj x)
     \<union> (if x = source e \<and> x \<in> dom adj then {target e} else {})
     \<union> (if x = target e \<and> x \<in> dom adj then {source e} else {})"
  by (auto simp: addEdge_def addNeighbour_set addNeighbour_dom)

lemma addEdge_distinct:
  "distinct (neighbours adj x) \<Longrightarrow> distinct (neighbours (addEdge e adj) x)"
  by (simp add: addEdge_def addNeighbour_distinct)

lemma addEdges_dom: "dom (addEdges es adj) = dom adj"
  by (induction es arbitrary: adj) (auto simp: addEdge_dom)

lemma addEdges_distinct:
  "distinct (neighbours adj x) \<Longrightarrow> distinct (neighbours (addEdges es adj) x)"
  by (induction es arbitrary: adj) (auto simp: addEdge_distinct)

lemma addEdges_set:
  "set (neighbours (addEdges es adj) x) =
     set (neighbours adj x)
     \<union> {b. x \<in> dom adj \<and> (\<exists>e \<in> set es. (x = source e \<and> b = target e) \<or> (x = target e \<and> b = source e))}"
proof (induction es arbitrary: adj)
  case Nil
  then show ?case by simp
next
  case (Cons e es)
  show ?case
    unfolding addEdges.simps Cons.IH addEdge_set addEdge_dom by auto
qed

lemma parse_nodes: "nodes (parseCSVToGraph f t) = sort (snd (readLines f (split CHR 0x0A (trim t)) ([], [])))"
  by (simp add: parseCSVToGraph_def Let_def case_prod_beta)

lemma parse_edges: "edges (parseCSVToGraph f t) = List.map_filter (parseLine f) (split CHR 0x0A (trim t))"
  using readLines_edges[of f "split CHR 0x0A (trim t)" "[]" "[]"]
  by (simp add: parseCSVToGraph_def Let_def case_prod_beta)

lemma parse_adj: "adjacencyList (parseCSVToGraph f t) =
   addEdges (edges (parseCSVToGraph f t)) (emptyLists (nodes (parseCSVToGraph f t)) Map.empty)"
  by (simp add: parseCSVToGraph_def Let_def case_prod_beta)

lemma parse_nodes_set:
  "set (nodes (parseCSVToGraph f t)) = source ` set (edges (parseCSVToGraph f t)) \<union> target ` set (edges (parseCSVToGraph f t))"
  unfolding parse_nodes parse_edges by (simp add: readLines_nodes)

text \<open>
  C9. For every input text, the node list returned by \<open>parseCSVToGraph\<close> is in
  strictly ascending order of the identifiers, has no duplicates, and its identifiers
  are exactly the keys of the returned adjacency list.
\<close>

theorem parseCSVToGraph_nodes_sorted_and_keys:
  "sorted_wrt (<) (nodes (parseCSVToGraph toNumber csvText))
   \<and> distinct (nodes (parseCSVToGraph toNumber csvText))
   \<and> set (nodes (parseCSVToGraph toNumber csvText))
       = dom (adjacencyList (parseCSVToGraph toNumber csvText))"
proof -
  let ?g = "parseCSVToGraph toNumber csvText"
  have d: "distinct (snd (readLines toNumber (split CHR 0x0A (trim csvText)) ([], [])))"
    by (rule readLines_distinct) simp
  have "sorted_wrt (<) (nodes ?g)"
    unfolding parse_nodes using d by (simp add: strict_sorted_iff)
  moreover have "distinct (nodes ?g)"
    unfolding parse_nodes using d by simp
  moreover have "set (nodes ?g) = dom (adjacencyList ?g)"
    unfolding parse_adj by (simp add: addEdges_dom emptyLists_dom)
  ultimately show ?thesis by blast
qed

lemma parseLine_wellFormed:
  "parseLine f l = (if wellFormed f l then Some (pairOf f l) else None)"
proof (cases "split CHR '','' l")
  case Nil
  then show ?thesis by (simp add: parseLine_def wellFormed_def)
next
  case (Cons x xs)
  note c1 = Cons
  show ?thesis
  proof (cases xs)
    case Nil
    with c1 show ?thesis by (cases "f x") (simp_all add: parseLine_def wellFormed_def)
  next
    case (Cons y ys)
    with c1 show ?thesis
      by (cases "f x"; cases "f y") (simp_all add: parseLine_def wellFormed_def pairOf_def)
  qed
qed

lemma map_filter_parseLine:
  "List.map_filter (parseLine f) ls = map (pairOf f) (filter (wellFormed f) ls)"
  by (induction ls) (simp_all add: parseLine_wellFormed)

lemma neighbours_empty: "neighbours Map.empty a = []"
  by (simp add: neighbours_def)

lemma edge_eq_iff: "(e :: 'n edge) = \<lparr>source = a, target = b\<rparr> \<longleftrightarrow> source e = a \<and> target e = b"
  by (cases e) auto

lemma parse_self:
  "set (neighbours (adjacencyList (parseCSVToGraph f t)) x) =
     {b. \<exists>e \<in> set (edges (parseCSVToGraph f t)).
           (x = source e \<and> b = target e) \<or> (x = target e \<and> b = source e)}"
proof -
  let ?g = "parseCSVToGraph f t"
  have dom: "dom (emptyLists (nodes ?g) Map.empty) = source ` set (edges ?g) \<union> target ` set (edges ?g)"
    by (simp add: emptyLists_dom parse_nodes_set)
  have emp: "neighbours (emptyLists (nodes ?g) Map.empty) x = []"
    by (simp add: emptyLists_neighbours neighbours_empty)
  show ?thesis
    unfolding parse_adj addEdges_set emp dom by auto
qed

lemma parse_symmetric: "symmetric (adjacencyList (parseCSVToGraph f t))"
  unfolding symmetric_def parse_self by blast

lemma parse_noDuplicates: "noDuplicates (adjacencyList (parseCSVToGraph f t))"
  unfolding noDuplicates_def parse_adj
  by (intro allI addEdges_distinct) (simp add: emptyLists_neighbours neighbours_empty)

lemma parse_selfloop:
  "a \<in> set (neighbours (adjacencyList (parseCSVToGraph f t)) a)
   \<longleftrightarrow> (\<exists>line \<in> set (split CHR 0x0A (trim t)). parseLine f line = Some \<lparr>source = a, target = a\<rparr>)"
proof -
  have "a \<in> set (neighbours (adjacencyList (parseCSVToGraph f t)) a)
        \<longleftrightarrow> \<lparr>source = a, target = a\<rparr> \<in> set (edges (parseCSVToGraph f t))"
    unfolding parse_self by (auto simp: in_set_conv_nth edge_eq_iff) (metis edge_eq_iff nth_mem)+
  also have "\<dots> \<longleftrightarrow> (\<exists>line \<in> set (split CHR 0x0A (trim t)). parseLine f line = Some \<lparr>source = a, target = a\<rparr>)"
    unfolding parse_edges by (force simp: map_filter_def image_iff)
  finally show ?thesis .
qed

lemma addEdge_symmetric:
  assumes "symmetric adj" "source e \<in> dom adj" "target e \<in> dom adj"
  shows "symmetric (addEdge e adj)"
  using assms unfolding symmetric_def addEdge_set by auto

lemma addEdge_noDuplicates: "noDuplicates adj \<Longrightarrow> noDuplicates (addEdge e adj)"
  unfolding noDuplicates_def by (simp add: addEdge_distinct)

lemma pushNeighbour_key:
  assumes "a \<in> dom (adjacencyList g)"
  shows "pushNeighbour a b g = Inr (g\<lparr>adjacencyList := addNeighbour a b (adjacencyList g)\<rparr>)"
proof -
  from assms obtain ns where ns: "adjacencyList g a = Some ns" by blast
  show ?thesis
    by (simp add: pushNeighbour_def ns addNeighbour_Some [of "adjacencyList g" a ns b, OF ns])
qed

lemma computePageRank_begin_graph: "graph (fst (computePageRank_begin s)) = graph (fst s)"
  by (cases s) (simp add: computePageRank_begin_def split: option.splits)

lemma pushNeighbour_missing:
  "a \<notin> dom (adjacencyList g) \<Longrightarrow> pushNeighbour a b g = Inl TypeError"
  by (simp add: pushNeighbour_def domIff)

lemma addNeighbour_missing: "a \<notin> dom adj \<Longrightarrow> addNeighbour a b adj = adj"
  by (simp add: addNeighbour_def domIff)

lemma connectNodes_graph:
  assumes g: "graph this = Some g"
  shows "fst (connectNodes sourceId targetId (this, k))
           = (if sourceId \<in> dom (adjacencyList g) \<and> targetId \<in> dom (adjacencyList g)
              then None else Some TypeError)
       \<and> graph (fst (snd (connectNodes sourceId targetId (this, k))))
         = Some (g\<lparr>edges := edges g @ [\<lparr>source = sourceId, target = targetId\<rparr>],
                   adjacencyList :=
                     (if sourceId \<in> dom (adjacencyList g)
                      then addEdge \<lparr>source = sourceId, target = targetId\<rparr> (adjacencyList g)
                      else adjacencyList g)\<rparr>)"
proof (cases "sourceId \<in> dom (adjacencyList g)")
  case False
  then show ?thesis
    by (simp add: connectNodes_def g Let_def pushNeighbour_missing)
next
  case s: True
  show ?thesis
  proof (cases "targetId \<in> dom (adjacencyList g)")
    case True
    with s show ?thesis
      by (simp add: connectNodes_def g Let_def pushNeighbour_key addNeighbour_dom
            computePageRank_begin_graph addEdge_def)
  next
    case False
    with s show ?thesis
      by (simp add: connectNodes_def g Let_def pushNeighbour_key pushNeighbour_missing
            addNeighbour_dom addNeighbour_missing addEdge_def)
  qed
qed

lemma neighbours_missing: "a \<notin> dom adj \<Longrightarrow> neighbours adj a = []"
  by (simp add: neighbours_def domIff)

lemma addEdge_selfloop_any:
  "a \<in> set (neighbours (addEdge e adj) a)
   \<longleftrightarrow> a \<in> set (neighbours adj a) \<or> (a = source e \<and> a = target e \<and> a \<in> dom adj)"
  unfolding addEdge_set by auto

text \<open>
  C3. For every input text, \<open>parseCSVToGraph\<close> reads one pair per line: the edges
  are the pairs of the well-formed lines, in the order of the lines, and a line that is
  blank or whose first two fields do not both convert to numbers contributes nothing.
  The nodes are the end points of these edges, and both numbers of every well-formed
  line are in the node list and are keys of the adjacency list. The function is total:
  no text makes it fail.
\<close>

theorem parseCSVToGraph_reads_well_formed_lines:
  "(let lines = split CHR 0x0A (trim csvText); g = parseCSVToGraph toNumber csvText in
      edges g = map (pairOf toNumber) (filter (wellFormed toNumber) lines)
    \<and> set (nodes g) = source ` set (edges g) \<union> target ` set (edges g)
    \<and> (\<forall>line \<in> set lines. wellFormed toNumber line \<longrightarrow>
          source (pairOf toNumber line) \<in> set (nodes g) \<and>
          target (pairOf toNumber line) \<in> set (nodes g) \<and>
          source (pairOf toNumber line) \<in> dom (adjacencyList g) \<and>
          target (pairOf toNumber line) \<in> dom (adjacencyList g)))"
proof -
  let ?lines = "split CHR 0x0A (trim csvText)"
  let ?g = "parseCSVToGraph toNumber csvText"
  have e: "edges ?g = map (pairOf toNumber) (filter (wellFormed toNumber) ?lines)"
    by (simp add: parse_edges map_filter_parseLine)
  have n: "set (nodes ?g) = source ` set (edges ?g) \<union> target ` set (edges ?g)"
    by (rule parse_nodes_set)
  have d: "dom (adjacencyList ?g) = set (nodes ?g)"
    unfolding parse_adj by (simp add: addEdges_dom emptyLists_dom)
  have "\<forall>line \<in> set ?lines. wellFormed toNumber line \<longrightarrow>
          source (pairOf toNumber line) \<in> set (nodes ?g) \<and>
          target (pairOf toNumber line) \<in> set (nodes ?g)"
    unfolding n e by auto
  with e n d show ?thesis by (simp add: Let_def)
qed

text \<open>
  The text \<open>1,2\<close>, an empty line, \<open>x,3\<close>: the first line is well formed, the other
  two are skipped.
\<close>

theorem parseCSVToGraph_reads_well_formed_lines_witness:
  "''1,2'' \<in> set (split CHR 0x0A (trim ''1,2\<newline>\<newline>x,3''))
   \<and> wellFormed Number_dec ''1,2''
   \<and> edges (parseCSVToGraph Number_dec ''1,2\<newline>\<newline>x,3'') = [\<lparr>source = 1, target = 2\<rparr>]
   \<and> set (nodes (parseCSVToGraph Number_dec ''1,2\<newline>\<newline>x,3'')) = {1, 2}
   \<and> 1 \<in> dom (adjacencyList (parseCSVToGraph Number_dec ''1,2\<newline>\<newline>x,3''))
   \<and> 2 \<in> dom (adjacencyList (parseCSVToGraph Number_dec ''1,2\<newline>\<newline>x,3''))"
proof -
  have l: "split CHR 0x0A (trim ''1,2\<newline>\<newline>x,3'') = [''1,2'', '''', ''x,3'']"
    by code_simp
  have w: "wellFormed Number_dec ''1,2''" "\<not> wellFormed Number_dec ''''"
    "\<not> wellFormed Number_dec ''x,3''"
    by code_simp+
  have p: "pairOf Number_dec ''1,2'' = \<lparr>source = 1, target = 2\<rparr>"
    by code_simp
  show ?thesis
    using parseCSVToGraph_reads_well_formed_lines [of "''1,2\<newline>\<newline>x,3''" Number_dec] l w p
    by (auto simp add: Let_def)
qed

text \<open>
  C2, as the code has it. The adjacency list returned by \<open>parseCSVToGraph\<close> is
  symmetric and has no duplicate entry in any neighbour list, for every input text; a
  node is in its own neighbour list exactly when a well-formed line names it as source
  and as target. \<open>connectNodes(sourceId, targetId)\<close> on a loaded graph throws exactly
  when one of the two identifiers is not a key; in every call it adds no duplicate
  entry, and it adds a self-loop exactly when the two identifiers are equal and a key;
  it leaves a symmetric adjacency list symmetric in every call but one whose source
  is a key and whose target is not.
\<close>

theorem adjacency_symmetric_and_duplicate_free:
  "(let adj = adjacencyList (parseCSVToGraph toNumber csvText) in
      symmetric adj \<and> noDuplicates adj
    \<and> (\<forall>a. a \<in> set (neighbours adj a) \<longleftrightarrow>
             (\<exists>line \<in> set (split CHR 0x0A (trim csvText)).
                parseLine toNumber line = Some \<lparr>source = a, target = a\<rparr>)))
   \<and> (graph this = Some g
      \<longrightarrow> (\<exists>err this' k' g'.
             connectNodes sourceId targetId (this, k) = (err, (this', k'))
           \<and> graph this' = Some g'
           \<and> (err = None \<longleftrightarrow>
                sourceId \<in> dom (adjacencyList g) \<and> targetId \<in> dom (adjacencyList g))
           \<and> (noDuplicates (adjacencyList g) \<longrightarrow> noDuplicates (adjacencyList g'))
           \<and> (\<forall>a. a \<in> set (neighbours (adjacencyList g') a) \<longleftrightarrow>
                    a \<in> set (neighbours (adjacencyList g) a)
                    \<or> (a = sourceId \<and> a = targetId \<and> a \<in> dom (adjacencyList g)))
           \<and> (symmetric (adjacencyList g)
                \<and> (sourceId \<in> dom (adjacencyList g) \<longrightarrow> targetId \<in> dom (adjacencyList g))
               \<longrightarrow> symmetric (adjacencyList g'))))"
proof (intro conjI impI)
  show "let adj = adjacencyList (parseCSVToGraph toNumber csvText) in
      symmetric adj \<and> noDuplicates adj
    \<and> (\<forall>a. a \<in> set (neighbours adj a) \<longleftrightarrow>
             (\<exists>line \<in> set (split CHR 0x0A (trim csvText)).
                parseLine toNumber line = Some \<lparr>source = a, target = a\<rparr>))"
    unfolding Let_def using parse_symmetric parse_noDuplicates parse_selfloop by blast
next
  assume h: "graph this = Some g"
  let ?e = "\<lparr>source = sourceId, target = targetId\<rparr>"
  let ?adj = "adjacencyList g"
  let ?adj' = "if sourceId \<in> dom ?adj then addEdge ?e ?adj else ?adj"
  let ?g' = "g\<lparr>edges := edges g @ [?e], adjacencyList := ?adj'\<rparr>"
  let ?r = "connectNodes sourceId targetId (this, k)"
  from connectNodes_graph [OF h, of sourceId targetId k]
  have c: "fst ?r = (if sourceId \<in> dom ?adj \<and> targetId \<in> dom ?adj then None else Some TypeError)"
    "graph (fst (snd ?r)) = Some ?g'"
    by simp_all
  have r: "?r = (fst ?r, (fst (snd ?r), snd (snd ?r)))"
    by simp
  have 0: "fst ?r = None \<longleftrightarrow> sourceId \<in> dom ?adj \<and> targetId \<in> dom ?adj"
    using c(1) by simp
  have 1: "noDuplicates ?adj \<longrightarrow> noDuplicates (adjacencyList ?g')"
    by (simp add: addEdge_noDuplicates)
  have 2: "\<forall>a. a \<in> set (neighbours (adjacencyList ?g') a) \<longleftrightarrow>
              a \<in> set (neighbours ?adj a) \<or> (a = sourceId \<and> a = targetId \<and> a \<in> dom ?adj)"
    using addEdge_selfloop_any [of _ ?e ?adj] by auto
  have 3: "symmetric ?adj \<and> (sourceId \<in> dom ?adj \<longrightarrow> targetId \<in> dom ?adj)
             \<longrightarrow> symmetric (adjacencyList ?g')"
    by (simp add: addEdge_symmetric)
  have all: "?r = (fst ?r, (fst (snd ?r), snd (snd ?r)))
           \<and> graph (fst (snd ?r)) = Some ?g'
           \<and> (fst ?r = None \<longleftrightarrow>
                sourceId \<in> dom (adjacencyList g) \<and> targetId \<in> dom (adjacencyList g))
           \<and> (noDuplicates (adjacencyList g) \<longrightarrow> noDuplicates (adjacencyList ?g'))
           \<and> (\<forall>a. a \<in> set (neighbours (adjacencyList ?g') a) \<longleftrightarrow>
                    a \<in> set (neighbours (adjacencyList g) a)
                    \<or> (a = sourceId \<and> a = targetId \<and> a \<in> dom (adjacencyList g)))
           \<and> (symmetric (adjacencyList g)
                \<and> (sourceId \<in> dom (adjacencyList g) \<longrightarrow> targetId \<in> dom (adjacencyList g))
               \<longrightarrow> symmetric (adjacencyList ?g'))"
    by (intro conjI) (rule r c(2) 0 1 2 3)+
  show "\<exists>err this' k' g'.
             connectNodes sourceId targetId (this, k) = (err, (this', k'))
           \<and> graph this' = Some g'
           \<and> (err = None \<longleftrightarrow>
                sourceId \<in> dom (adjacencyList g) \<and> targetId \<in> dom (adjacencyList g))
           \<and> (noDuplicates (adjacencyList g) \<longrightarrow> noDuplicates (adjacencyList g'))
           \<and> (\<forall>a. a \<in> set (neighbours (adjacencyList g') a) \<longleftrightarrow>
                    a \<in> set (neighbours (adjacencyList g) a)
                    \<or> (a = sourceId \<and> a = targetId \<and> a \<in> dom (adjacencyList g)))
           \<and> (symmetric (adjacencyList g)
                \<and> (sourceId \<in> dom (adjacencyList g) \<longrightarrow> targetId \<in> dom (adjacencyList g))
               \<longrightarrow> symmetric (adjacencyList g'))"
    apply (rule exI [of _ "fst ?r"])
    apply (rule exI [of _ "fst (snd ?r)"])
    apply (rule exI [of _ "snd (snd ?r)"])
    apply (rule exI [of _ ?g'])
    apply (rule all)
    done
qed

text \<open>
  \<open>connectNodes(1, 3)\<close> on the graph of the text \<open>1,2\<close>, \<open>3,4\<close>.
\<close>

theorem adjacency_symmetric_and_duplicate_free_witness:
  "graph (constructor\<lparr>graph := Some (parseCSVToGraph Number_dec ''1,2\<newline>3,4'')\<rparr>)
     = Some (parseCSVToGraph Number_dec ''1,2\<newline>3,4'')
   \<and> symmetric (adjacencyList (parseCSVToGraph Number_dec ''1,2\<newline>3,4''))
   \<and> noDuplicates (adjacencyList (parseCSVToGraph Number_dec ''1,2\<newline>3,4''))
   \<and> 1 \<in> dom (adjacencyList (parseCSVToGraph Number_dec ''1,2\<newline>3,4''))
   \<and> 3 \<in> dom (adjacencyList (parseCSVToGraph Number_dec ''1,2\<newline>3,4''))
   \<and> (\<exists>this' k' g'.
         connectNodes 1 3 (constructor\<lparr>graph := Some (parseCSVToGraph Number_dec ''1,2\<newline>3,4'')\<rparr>, 0)
           = (None, (this', k'))
       \<and> graph this' = Some g'
       \<and> symmetric (adjacencyList g') \<and> noDuplicates (adjacencyList g')
       \<and> (\<forall>a. a \<in> set (neighbours (adjacencyList g') a) \<longleftrightarrow>
                a \<in> set (neighbours (adjacencyList (parseCSVToGraph Number_dec ''1,2\<newline>3,4'')) a)
                \<or> (a = 1 \<and> a = 3
                    \<and> a \<in> dom (adjacencyList (parseCSVToGraph Number_dec ''1,2\<newline>3,4'')))))"
proof -
  let ?g = "parseCSVToGraph Number_dec ''1,2\<newline>3,4''"
  note t = adjacency_symmetric_and_duplicate_free [of Number_dec "''1,2\<newline>3,4''" "constructor\<lparr>graph := Some ?g\<rparr>" ?g 1 3 0]
  have s: "symmetric (adjacencyList ?g)" "noDuplicates (adjacencyList ?g)"
    using t by (simp_all add: Let_def)
  have "adjacencyList ?g 1 = Some [2]" "adjacencyList ?g 3 = Some [4]"
    by code_simp+
  then have d: "1 \<in> dom (adjacencyList ?g)" "3 \<in> dom (adjacencyList ?g)"
    by (simp_all add: domIff)
  have g: "graph (constructor\<lparr>graph := Some ?g\<rparr>) = Some ?g"
    by simp
  from t g have "\<exists>err this' k' g'.
             connectNodes 1 3 (constructor\<lparr>graph := Some ?g\<rparr>, 0) = (err, (this', k'))
           \<and> graph this' = Some g'
           \<and> (err = None \<longleftrightarrow> 1 \<in> dom (adjacencyList ?g) \<and> 3 \<in> dom (adjacencyList ?g))
           \<and> (noDuplicates (adjacencyList ?g) \<longrightarrow> noDuplicates (adjacencyList g'))
           \<and> (\<forall>a. a \<in> set (neighbours (adjacencyList g') a) \<longleftrightarrow>
                    a \<in> set (neighbours (adjacencyList ?g) a)
                    \<or> (a = 1 \<and> a = 3 \<and> a \<in> dom (adjacencyList ?g)))
           \<and> (symmetric (adjacencyList ?g)
                \<and> (1 \<in> dom (adjacencyList ?g) \<longrightarrow> 3 \<in> dom (adjacencyList ?g))
               \<longrightarrow> symmetric (adjacencyList g'))"
    by blast
  then obtain err this' k' g' where
    o: "connectNodes 1 3 (constructor\<lparr>graph := Some ?g\<rparr>, 0) = (err, (this', k'))"
      "graph this' = Some g'"
      "err = None \<longleftrightarrow> 1 \<in> dom (adjacencyList ?g) \<and> 3 \<in> dom (adjacencyList ?g)"
      "noDuplicates (adjacencyList ?g) \<longrightarrow> noDuplicates (adjacencyList g')"
      "\<forall>a. a \<in> set (neighbours (adjacencyList g') a) \<longleftrightarrow>
                    a \<in> set (neighbours (adjacencyList ?g) a)
                    \<or> (a = 1 \<and> a = 3 \<and> a \<in> dom (adjacencyList ?g))"
      "symmetric (adjacencyList ?g)
                \<and> (1 \<in> dom (adjacencyList ?g) \<longrightarrow> 3 \<in> dom (adjacencyList ?g))
               \<longrightarrow> symmetric (adjacencyList g')"
    by blast
  from o(3) d have e: "err = None" by simp
  from o(4) s have n: "noDuplicates (adjacencyList g')" by simp
  from o(6) s d have y: "symmetric (adjacencyList g')" by simp
  from o(1) e have c: "connectNodes 1 3 (constructor\<lparr>graph := Some ?g\<rparr>, 0) = (None, (this', k'))"
    by simp
  from g s d c o(2) n y o(5) show ?thesis by blast
qed

text \<open>
  The claim fails in two places. No node in its own neighbour list: on the text
  \<open>5,5\<close> the line is well formed, 5 is not yet among the neighbours of 5, and nothing
  compares source and target, so the adjacency list is \<open>{5: [5]}\<close>. Symmetry after any
  \<open>connectNodes\<close> call: \<open>connectNodes(1, 9)\<close> on the graph of \<open>1,2\<close>, \<open>3,4\<close>
  pushes 9 into the list of node 1 and then throws on the missing key 9, where
  \<open>parseCSVToGraph\<close> tests the key first; 9 stays a neighbour of 1 and has no list.
\<close>

theorem adjacency_self_loop_and_asymmetry:
  "\<not> noSelfLoops (adjacencyList (parseCSVToGraph Number_dec ''5,5''))
   \<and> \<not> symmetric (adjacencyList (the (graph (fst (snd
          (connectNodes 1 9
             (constructor\<lparr>graph := Some (parseCSVToGraph Number_dec ''1,2\<newline>3,4'')\<rparr>, 0)))))))"
proof -
  have "adjacencyList (parseCSVToGraph Number_dec ''5,5'') 5 = Some [5]"
    by code_simp
  then have "5 \<in> set (neighbours (adjacencyList (parseCSVToGraph Number_dec ''5,5'')) 5)"
    by (simp add: neighbours_def)
  then have a: "\<not> noSelfLoops (adjacencyList (parseCSVToGraph Number_dec ''5,5''))"
    unfolding noSelfLoops_def by blast
  let ?g = "parseCSVToGraph Number_dec ''1,2\<newline>3,4''"
  let ?r = "connectNodes 1 9 (constructor\<lparr>graph := Some ?g\<rparr>, 0)"
  have k: "adjacencyList ?g 1 = Some [2]" "adjacencyList ?g 9 = None"
    by code_simp+
  then have d: "1 \<in> dom (adjacencyList ?g)" "9 \<notin> dom (adjacencyList ?g)"
    by (simp_all add: domIff)
  have "graph (constructor\<lparr>graph := Some ?g\<rparr>) = Some ?g" by simp
  from connectNodes_graph [OF this, of 1 9 0] d
  have adj: "adjacencyList (the (graph (fst (snd ?r))))
               = addEdge \<lparr>source = 1, target = 9\<rparr> (adjacencyList ?g)"
    by simp
  have "9 \<in> set (neighbours (addEdge \<lparr>source = 1, target = 9\<rparr> (adjacencyList ?g)) 1)"
    using d by (simp add: addEdge_set)
  moreover have "1 \<notin> set (neighbours (addEdge \<lparr>source = 1, target = 9\<rparr> (adjacencyList ?g)) 9)"
    using d by (simp add: addEdge_set neighbours_missing)
  ultimately have b: "\<not> symmetric (adjacencyList (the (graph (fst (snd ?r)))))"
    unfolding adj symmetric_def by blast
  from a b show ?thesis by (intro conjI)
qed


section \<open>Recommendations\<close>

lemma mset_minus_take: "mset xs - mset (take k xs) = mset (drop k xs)"
proof -
  have "mset xs = mset (take k xs) + mset (drop k xs)"
    by (metis append_take_drop_id mset_append)
  then show ?thesis by simp
qed

lemma sorted_take_drop:
  assumes "sorted (map f xs)" "x \<in> set (take k xs)" "y \<in> set (drop k xs)"
  shows "f x \<le> f y"
proof -
  have "sorted (map f (take k xs) @ map f (drop k xs))"
    using assms(1) by (metis append_take_drop_id map_append)
  then show ?thesis using assms(2,3) by (auto simp: sorted_append)
qed

lemma getRecommendations_eq:
  assumes "pageRankScores this = Some scores" "graph this = Some g" "parseInt nodeId = Some nodeId"
  shows "getRecommendations parseInt this nodeId =
     Inr (take 3 (sort_key (\<lambda>r. - score r)
        (map (\<lambda>v. \<lparr>node = v, score = scores v\<rparr>)
           (filter (\<lambda>v. v \<noteq> nodeId \<and> v \<notin> set (neighbours (adjacencyList g) nodeId)) (nodes g)))))"
proof -
  have "(\<lambda>v. v \<notin> set ((case adjacencyList g nodeId of None \<Rightarrow> [] | Some ns \<Rightarrow> ns) @ [nodeId]))
        = (\<lambda>v. v \<noteq> nodeId \<and> v \<notin> set (neighbours (adjacencyList g) nodeId))"
    by (auto simp: neighbours_def)
  then show ?thesis
    using assms by (simp add: getRecommendations_def Let_def)
qed

text \<open>
  What \<open>getRecommendations\<close> returns when \<open>parseInt\<close> gives the identifier
  back, as it does for every integer below \<open>10^21\<close> in magnitude. In a state with a
  graph and a ScoreMap, \<open>getRecommendations(n)\<close> returns at most three entries,
  three unless there are fewer candidates; every entry names a node of the graph that
  is neither \<open>n\<close> nor in the neighbour list of \<open>n\<close>, with its score; the entries
  are in descending order of score; and no candidate left out has a higher score than
  an entry returned.
\<close>

theorem getRecommendations_top_three:
  "pageRankScores this = Some scores \<and> graph this = Some g \<and> parseInt nodeId = Some nodeId \<longrightarrow>
   (let candidates = map (\<lambda>v. \<lparr>node = v, score = scores v\<rparr>)
          (filter (\<lambda>v. v \<noteq> nodeId \<and> v \<notin> set (neighbours (adjacencyList g) nodeId)) (nodes g))
    in \<exists>recs. getRecommendations parseInt this nodeId = Inr recs
        \<and> length recs = min 3 (length candidates)
        \<and> (\<forall>r \<in> set recs. node r \<in> set (nodes g) \<and> node r \<noteq> nodeId
               \<and> node r \<notin> set (neighbours (adjacencyList g) nodeId)
               \<and> score r = scores (node r))
        \<and> sorted_wrt (\<lambda>a b. score a \<ge> score b) recs
        \<and> mset recs \<subseteq># mset candidates
        \<and> (\<forall>x \<in># mset candidates - mset recs. \<forall>r \<in> set recs. score x \<le> score r))"
proof (intro impI)
  assume h: "pageRankScores this = Some scores \<and> graph this = Some g \<and> parseInt nodeId = Some nodeId"
  define candidates where "candidates = map (\<lambda>v. \<lparr>node = v, score = scores v\<rparr>)
          (filter (\<lambda>v. v \<noteq> nodeId \<and> v \<notin> set (neighbours (adjacencyList g) nodeId)) (nodes g))"
  define sorted_cs where "sorted_cs = sort_key (\<lambda>r. - score r) candidates"
  define recs where "recs = take 3 sorted_cs"
  have eq: "getRecommendations parseInt this nodeId = Inr recs"
    using h getRecommendations_eq [of this scores g parseInt nodeId]
    by (simp add: recs_def sorted_cs_def candidates_def)
  have len: "length recs = min 3 (length candidates)"
    by (simp add: recs_def sorted_cs_def min.commute)
  have sub: "set recs \<subseteq> set candidates"
    unfolding recs_def sorted_cs_def using set_take_subset [of 3 "sort_key (\<lambda>r. - score r) candidates"]
    by simp
  have mem: "\<forall>r \<in> set recs. node r \<in> set (nodes g) \<and> node r \<noteq> nodeId
               \<and> node r \<notin> set (neighbours (adjacencyList g) nodeId)
               \<and> score r = scores (node r)"
    using sub unfolding candidates_def by auto
  have srt: "sorted (map (\<lambda>r. - score r) sorted_cs)"
    by (simp add: sorted_cs_def)
  then have "sorted (map (\<lambda>r. - score r) recs)"
    unfolding recs_def by (simp add: take_map [symmetric] sorted_wrt_take)
  then have desc: "sorted_wrt (\<lambda>a b. score a \<ge> score b) recs"
    by (simp add: sorted_map sorted_wrt_iff_nth_less) 
  have ms: "mset sorted_cs = mset candidates"
    by (simp add: sorted_cs_def)
  have msub: "mset recs \<subseteq># mset candidates"
    unfolding ms [symmetric] recs_def
    by (metis append_take_drop_id mset_append mset_subset_eq_add_left)
  have rest: "mset candidates - mset recs = mset (drop 3 sorted_cs)"
    unfolding ms [symmetric] recs_def by (rule mset_minus_take)
  have top: "\<forall>x \<in># mset candidates - mset recs. \<forall>r \<in> set recs. score x \<le> score r"
  proof (intro ballI)
    fix x r assume x: "x \<in># mset candidates - mset recs" and r: "r \<in> set recs"
    from x have "x \<in> set (drop 3 sorted_cs)"
      unfolding rest by simp
    moreover from r have "r \<in> set (take 3 sorted_cs)"
      by (simp add: recs_def)
    ultimately have "- score r \<le> - score x"
      using sorted_take_drop [OF srt] by blast
    then show "score x \<le> score r" by simp
  qed
  show "let candidates = map (\<lambda>v. \<lparr>node = v, score = scores v\<rparr>)
          (filter (\<lambda>v. v \<noteq> nodeId \<and> v \<notin> set (neighbours (adjacencyList g) nodeId)) (nodes g))
    in \<exists>recs. getRecommendations parseInt this nodeId = Inr recs
        \<and> length recs = min 3 (length candidates)
        \<and> (\<forall>r \<in> set recs. node r \<in> set (nodes g) \<and> node r \<noteq> nodeId
               \<and> node r \<notin> set (neighbours (adjacencyList g) nodeId)
               \<and> score r = scores (node r))
        \<and> sorted_wrt (\<lambda>a b. score a \<ge> score b) recs
        \<and> mset recs \<subseteq># mset candidates
        \<and> (\<forall>x \<in># mset candidates - mset recs. \<forall>r \<in> set recs. score x \<le> score r)"
    unfolding Let_def candidates_def [symmetric]
    using eq len mem desc msub top by blast
qed

text \<open>
  Node 6 in the graph of the three pairs 1-2, 3-4, 5-6: the candidates are 1, 2, 3
  and 4, of scores 0.5, 0.3, 0.2 and 0.2; the first three are returned.
\<close>

theorem getRecommendations_top_three_witness:
  "pageRankScores (exampleApp pairsText) = Some exampleScores
   \<and> graph (exampleApp pairsText) = Some (parseCSVToGraph Number_dec pairsText)
   \<and> parseInt_dec 6 = Some 6
   \<and> getRecommendations parseInt_dec (exampleApp pairsText) 6
       = Inr [\<lparr>node = 1, score = 1 / 2\<rparr>, \<lparr>node = 2, score = 3 / 10\<rparr>, \<lparr>node = 3, score = 1 / 5\<rparr>]
   \<and> (let candidates = map (\<lambda>v. \<lparr>node = v, score = exampleScores v\<rparr>)
          (filter (\<lambda>v. v \<noteq> 6 \<and> v \<notin> set (neighbours (adjacencyList
             (parseCSVToGraph Number_dec pairsText)) 6))
             (nodes (parseCSVToGraph Number_dec pairsText)))
    in \<exists>recs. getRecommendations parseInt_dec (exampleApp pairsText) 6 = Inr recs
        \<and> length recs = min 3 (length candidates)
        \<and> (\<forall>r \<in> set recs.
              node r \<in> set (nodes (parseCSVToGraph Number_dec pairsText))
            \<and> node r \<noteq> 6
            \<and> node r \<notin> set (neighbours (adjacencyList (parseCSVToGraph Number_dec pairsText)) 6)
            \<and> score r = exampleScores (node r))
        \<and> sorted_wrt (\<lambda>a b. score a \<ge> score b) recs
        \<and> mset recs \<subseteq># mset candidates
        \<and> (\<forall>x \<in># mset candidates - mset recs. \<forall>r \<in> set recs. score x \<le> score r))"
proof -
  have a: "pageRankScores (exampleApp pairsText) = Some exampleScores"
    "graph (exampleApp pairsText) = Some (parseCSVToGraph Number_dec pairsText)"
    by (simp_all add: exampleApp_def constructor_def)
  have b: "parseInt_dec 6 = Some 6"
    by (simp add: parseInt_dec_def)
  have n: "nodes (parseCSVToGraph Number_dec pairsText) = [1, 2, 3, 4, 5, 6]"
    by code_simp
  have f: "adjacencyList (parseCSVToGraph Number_dec pairsText) 6 = Some [5]"
    by code_simp
  have c: "getRecommendations parseInt_dec (exampleApp pairsText) 6
       = Inr [\<lparr>node = 1, score = 1 / 2\<rparr>, \<lparr>node = 2, score = 3 / 10\<rparr>, \<lparr>node = 3, score = 1 / 5\<rparr>]"
    by (simp add: getRecommendations_def a n f b exampleScores_def)
  have d: "let candidates = map (\<lambda>v. \<lparr>node = v, score = exampleScores v\<rparr>)
          (filter (\<lambda>v. v \<noteq> 6 \<and> v \<notin> set (neighbours (adjacencyList
             (parseCSVToGraph Number_dec pairsText)) 6))
             (nodes (parseCSVToGraph Number_dec pairsText)))
    in \<exists>recs. getRecommendations parseInt_dec (exampleApp pairsText) 6 = Inr recs
        \<and> length recs = min 3 (length candidates)
        \<and> (\<forall>r \<in> set recs.
              node r \<in> set (nodes (parseCSVToGraph Number_dec pairsText))
            \<and> node r \<noteq> 6
            \<and> node r \<notin> set (neighbours (adjacencyList (parseCSVToGraph Number_dec pairsText)) 6)
            \<and> score r = exampleScores (node r))
        \<and> sorted_wrt (\<lambda>a b. score a \<ge> score b) recs
        \<and> mset recs \<subseteq># mset candidates
        \<and> (\<forall>x \<in># mset candidates - mset recs. \<forall>r \<in> set recs. score x \<le> score r)"
    using getRecommendations_top_three [of "exampleApp pairsText" exampleScores "parseCSVToGraph Number_dec pairsText" parseInt_dec 6]
      a b by (rule mp [OF _ conjI [OF _ conjI]])
  from a b c d show ?thesis by (intro conjI)
qed

text \<open>
  C1. The claim is that for every node identifier \<open>n\<close> the entries returned by
  \<open>getRecommendations(n)\<close> name neither \<open>n\<close> itself nor a neighbour of \<open>n\<close>
  and are the highest-scoring such candidates. The method excludes \<open>n\<close> by adding
  \<open>parseInt(nodeId)\<close> to the set of friends (its comment: exclude self), and this
  misses the identifiers that \<open>parseInt\<close> does not give back. At \<open>n = 10^21\<close>, a
  node of the graph of the text \<open>1,2\<close>, \<open>1000000000000000000000,2\<close>,
  \<open>parseInt(1e21)\<close> reads the text \<open>1e+21\<close> and returns 1, so the set of excluded
  nodes is \<open>{2, 1}\<close>: node 1, the only candidate, is left out, and the node
  \<open>10^21\<close> itself is the one recommendation.
\<close>

theorem getRecommendations_recommends_self: "getRecommendations parseInt_dec (exampleApp bigIdText) (10 ^ 21)
   = Inr [\<lparr>node = 10 ^ 21, score = 1 / 5\<rparr>]"
  by code_simp

text \<open>
  C10. When no scores have been computed (\<open>pageRankScores\<close> is \<open>null\<close>),
  \<open>getRecommendations\<close> returns the empty list for every node identifier.
\<close>

theorem getRecommendations_without_scores: "pageRankScores this = None \<longrightarrow> getRecommendations parseInt this nodeId = Inr []"
  by (simp add: getRecommendations_def)

text \<open>The state right after the constructor has no scores.\<close>

theorem getRecommendations_without_scores_witness:
  "pageRankScores (constructor :: int app) = None
   \<and> getRecommendations parseInt_dec constructor 7 = Inr []"
  using getRecommendations_without_scores [of "constructor :: int app" parseInt_dec 7]
  by (simp add: constructor_def)


section \<open>The compute method\<close>

lemma begin_scores: "pageRankScores (fst (computePageRank_begin s)) = pageRankScores (fst s)"
  by (cases s) (simp add: computePageRank_begin_def split: option.splits)

lemma resume_failure_scores:
  "pageRankScores (fst (computePageRank_resume (Inl err) s)) = pageRankScores (fst s)"
  by (cases s) (simp add: computePageRank_resume_def)

lemma guarded_begin: "guarded s \<Longrightarrow> guarded (computePageRank_begin s)"
  by (cases s) (auto simp: guarded_def computePageRank_begin_def split: option.splits)

lemma guarded_resume: "guarded s \<Longrightarrow> guarded (computePageRank_resume outcome s)"
  by (cases s) (auto simp: guarded_def computePageRank_resume_def split: sum.splits)

lemma guarded_reset: "guarded s \<Longrightarrow> guarded (resetGraph s)"
  by (cases s) (auto simp: guarded_def resetGraph_def)

lemma guarded_loaded: "guarded s \<Longrightarrow> guarded (graphLoaded g s)"
  by (cases s) (auto simp: guarded_def graphLoaded_def)

lemma guarded_graph_update: "guarded (this, k) \<Longrightarrow> guarded (this\<lparr>graph := x\<rparr>, k)"
  by (simp add: guarded_def)

lemma guarded_connect: "guarded s \<Longrightarrow> guarded (snd (connectNodes a b s))"
  by (cases s)
    (auto simp: connectNodes_def Let_def guarded_begin guarded_graph_update
          split: option.splits sum.splits)

lemma guarded_handle: "guarded s \<Longrightarrow> guarded (handle e s)"
  by (cases e) (simp_all add: guarded_begin guarded_resume guarded_reset guarded_loaded guarded_connect)

lemma guarded_run: "guarded s \<Longrightarrow> guarded (run es s)"
  by (induction es arbitrary: s) (simp_all add: guarded_handle)

lemma guarded_start: "guarded start"
  by (simp add: guarded_def start_def constructor_def)

lemma begin_rejected: "isComputing (fst s) \<Longrightarrow> computePageRank_begin s = s"
  by (cases s) (simp add: computePageRank_begin_def)

lemma resume_clears: "guarded s \<Longrightarrow> \<not> isComputing (fst (computePageRank_resume outcome s))"
  by (cases s) (auto simp: guarded_def computePageRank_resume_def split: sum.splits)

text \<open>
  C4. When the engine call inside the method \<open>computePageRank\<close> fails, the stored
  ScoreMap \<open>this.pageRankScores\<close> is what it was before: the continuation that
  receives the failure does not assign it, the part of the method before the
  \<open>await\<close> does not either (also when reading the graph fails), and so the whole
  method leaves it unchanged.
\<close>

theorem computePageRank_failure_keeps_scores:
  "pageRankScores (fst (computePageRank_resume (Inl err) s)) = pageRankScores (fst s)
   \<and> pageRankScores (fst (computePageRank_begin s)) = pageRankScores (fst s)
   \<and> pageRankScores (fst (computePageRank_run (Inl err) s)) = pageRankScores (fst s)"
  by (simp add: computePageRank_run_def begin_scores resume_failure_scores)

text \<open>
  A state with scores, in which the engine rejects the input: the scores stay.
\<close>

theorem computePageRank_failure_keeps_scores_witness:
  "pageRankScores (fst (computePageRank_run (Inl InvalidInput) (exampleApp pairsText, 0)))
     = Some exampleScores"
  using computePageRank_failure_keeps_scores [of InvalidInput "(exampleApp pairsText, 0)"]
  by (simp add: exampleApp_def constructor_def)

text \<open>
  C5. In every state the application can reach from its constructor, whatever the
  handlers that ran and in whatever order: at most one engine computation is in
  flight, and \<open>isComputing\<close> is set exactly when one is; while it is set, an
  invocation of \<open>computePageRank\<close> returns at once and changes nothing, so it starts
  no second computation; when it is not set and a graph is loaded, an invocation sets
  it and starts one computation; and when the computation settles, with a ScoreMap or
  with a failure, \<open>isComputing\<close> is cleared and nothing is in flight.
\<close>

theorem computePageRank_one_in_flight:
  "(let s = run events start in
      snd s \<le> 1
    \<and> (isComputing (fst s) \<longleftrightarrow> snd s = 1)
    \<and> (isComputing (fst s) \<longrightarrow> computePageRank_begin s = s)
    \<and> (\<not> isComputing (fst s) \<and> graph (fst s) \<noteq> None \<longrightarrow>
          isComputing (fst (computePageRank_begin s)) \<and> snd (computePageRank_begin s) = 1)
    \<and> \<not> isComputing (fst (computePageRank_resume outcome s))
    \<and> snd (computePageRank_resume outcome s) = 0)"
proof -
  have g: "guarded (run events start)"
    by (rule guarded_run [OF guarded_start])
  obtain this k where s: "run events start = (this, k)" by (cases "run events start")
  from g s have k: "k \<le> 1" "isComputing this \<longleftrightarrow> k = 1"
    by (simp_all add: guarded_def)
  have 1: "isComputing this \<longrightarrow> computePageRank_begin (this, k) = (this, k)"
    by (simp add: begin_rejected)
  have 2: "\<not> isComputing this \<and> graph this \<noteq> None \<longrightarrow>
          isComputing (fst (computePageRank_begin (this, k))) \<and> snd (computePageRank_begin (this, k)) = 1"
    using k by (auto simp: computePageRank_begin_def)
  have 3: "\<not> isComputing (fst (computePageRank_resume outcome (this, k)))"
    using g s resume_clears [of "(this, k)" outcome] by simp
  have 4: "snd (computePageRank_resume outcome (this, k)) = 0"
    using k by (auto simp: computePageRank_resume_def split: sum.splits)
  show ?thesis
    unfolding Let_def s using k 1 2 3 4 by simp
qed

text \<open>
  After the data is loaded and the button is clicked, one computation is in flight and
  a second click changes nothing; a failure of the engine clears the flag.
\<close>

theorem computePageRank_one_in_flight_witness:
  "\<not> isComputing (fst (run [DataLoaded (parseCSVToGraph Number_dec pairsText)] start))
   \<and> graph (fst (run [DataLoaded (parseCSVToGraph Number_dec pairsText)] start)) \<noteq> None
   \<and> isComputing (fst (run [DataLoaded (parseCSVToGraph Number_dec pairsText), ComputeClicked] start))
   \<and> snd (run [DataLoaded (parseCSVToGraph Number_dec pairsText), ComputeClicked] start) = 1
   \<and> run [DataLoaded (parseCSVToGraph Number_dec pairsText), ComputeClicked, ComputeClicked] start
       = run [DataLoaded (parseCSVToGraph Number_dec pairsText), ComputeClicked] start
   \<and> \<not> isComputing (fst (computePageRank_resume (Inl InvalidInput)
          (run [DataLoaded (parseCSVToGraph Number_dec pairsText), ComputeClicked] start)))"
proof -
  let ?g = "parseCSVToGraph Number_dec pairsText"
  have a: "\<not> isComputing (fst (run [DataLoaded ?g] start))"
    "graph (fst (run [DataLoaded ?g] start)) \<noteq> None"
    by (simp_all add: start_def constructor_def graphLoaded_def)
  have r1: "run [DataLoaded ?g, ComputeClicked] start
              = computePageRank_begin (run [DataLoaded ?g] start)"
    by simp
  have r2: "run [DataLoaded ?g, ComputeClicked, ComputeClicked] start
              = computePageRank_begin (run [DataLoaded ?g, ComputeClicked] start)"
    by simp
  note t1 = computePageRank_one_in_flight [of "[DataLoaded ?g]" "Inl InvalidInput", unfolded Let_def]
  note t2 = computePageRank_one_in_flight
              [of "[DataLoaded ?g, ComputeClicked]" "Inl InvalidInput", unfolded Let_def]
  from t1 a have b: "isComputing (fst (run [DataLoaded ?g, ComputeClicked] start))"
    "snd (run [DataLoaded ?g, ComputeClicked] start) = 1"
    unfolding r1 by blast+
  from t2 b have c: "run [DataLoaded ?g, ComputeClicked, ComputeClicked] start
       = run [DataLoaded ?g, ComputeClicked] start"
    unfolding r2 by blast
  from t2 have d: "\<not> isComputing (fst (computePageRank_resume (Inl InvalidInput)
          (run [DataLoaded ?g, ComputeClicked] start)))"
    by blast
  from a b c d show ?thesis by (intro conjI)
qed


section \<open>The failures of the engine\<close>

lemma iteration_keys: "map fst (iteration r adj d old) = keys adj"
  by (simp add: iteration_def comp_def)

lemma iterations_keys:
  "map fst old = keys adj \<Longrightarrow> map fst (iterations k r adj d old) = keys adj"
  by (induction k arbitrary: old) (simp_all add: Let_def iteration_keys)

lemma compute_valid:
  assumes "\<not> invalidInput adj m d"
  shows "\<exists>scores. compute r adj m d = Inr scores \<and> map fst scores = keys adj"
proof (cases "keys adj = []")
  case True
  with assms show ?thesis by (simp add: compute_def)
next
  case False
  have "map fst (iterations (nat m) r adj d
                  (map (\<lambda>v. (v, 1 / real (length (keys adj)))) (keys adj))) = keys adj"
    by (rule iterations_keys) (simp add: comp_def)
  with assms False show ?thesis by (simp add: compute_def)
qed


lemma compute_single_node_redistributed:
  "compute True [(1::int, [])] 50 (85 / 100) = Inr [(1, 1)]"
  by (simp add: compute_def invalidInput_def keys_def iteration_def newScore_def neighbors_def
        degree_def scoreOf_def totalChange_def tolerance_def Let_def eval_nat_numeral)

text \<open>
  C8. \<open>compute\<close> fails with \<open>InvalidInput\<close> exactly when \<open>maxIterations <= 0\<close>,
  or \<open>dampingFactor\<close> is not strictly between 0 and 1, or some neighbour list names
  an identifier that is not a key. \<open>compute(adj, 0, 0.85)\<close> and
  \<open>compute(adj, 50, 1.0)\<close> fail with \<open>InvalidInput\<close> for every \<open>adj\<close>. There is
  no other failure: on every other input \<open>compute\<close> returns a ScoreMap, with one score
  for each key.
\<close>

theorem compute_fails_exactly_on_invalid_input:
  "(compute redistribute adjacency maxIterations dampingFactor = Inl InvalidInput
      \<longleftrightarrow> maxIterations \<le> 0
          \<or> \<not> (0 < dampingFactor \<and> dampingFactor < 1)
          \<or> (\<exists>entry \<in> set adjacency. \<exists>v \<in> set (snd entry). v \<notin> fst ` set adjacency))
   \<and> compute redistribute adjacency 0 (85 / 100) = Inl InvalidInput
   \<and> compute redistribute adjacency 50 1 = Inl InvalidInput
   \<and> (\<forall>err. compute redistribute adjacency maxIterations dampingFactor = Inl err
          \<longrightarrow> err = InvalidInput)
   \<and> (\<not> (maxIterations \<le> 0
          \<or> \<not> (0 < dampingFactor \<and> dampingFactor < 1)
          \<or> (\<exists>entry \<in> set adjacency. \<exists>v \<in> set (snd entry). v \<notin> fst ` set adjacency))
        \<longrightarrow> (\<exists>scores. compute redistribute adjacency maxIterations dampingFactor = Inr scores
                     \<and> map fst scores = keys adjacency))"
proof -
  let ?bad = "maxIterations \<le> 0
          \<or> \<not> (0 < dampingFactor \<and> dampingFactor < 1)
          \<or> (\<exists>entry \<in> set adjacency. \<exists>v \<in> set (snd entry). v \<notin> fst ` set adjacency)"
  have inv: "invalidInput adjacency maxIterations dampingFactor \<longleftrightarrow> ?bad"
    by (simp add: invalidInput_def)
  have 1: "compute redistribute adjacency maxIterations dampingFactor = Inl InvalidInput \<longleftrightarrow> ?bad"
    unfolding inv [symmetric] by (simp add: compute_def)
  have 2: "compute redistribute adjacency 0 (85 / 100) = Inl InvalidInput"
    by (simp add: compute_def invalidInput_def)
  have 3: "compute redistribute adjacency 50 1 = Inl InvalidInput"
    by (simp add: compute_def invalidInput_def)
  have 4: "\<forall>err. compute redistribute adjacency maxIterations dampingFactor = Inl err
          \<longrightarrow> err = InvalidInput"
    by (simp add: compute_def)
  have 5: "\<not> ?bad \<longrightarrow> (\<exists>scores. compute redistribute adjacency maxIterations dampingFactor = Inr scores
                     \<and> map fst scores = keys adjacency)"
    unfolding inv [symmetric] using compute_valid by blast
  from 1 2 3 4 5 show ?thesis by (intro conjI)
qed

text \<open>
  The two-node graph \<open>{1: [2], 2: [1]}\<close> is accepted; \<open>{1: [2]}\<close>, whose neighbour 2
  is not a key, is rejected.
\<close>

theorem compute_fails_exactly_on_invalid_input_witness:
  "(\<exists>scores. compute False [(1::int, [2]), (2, [1])] 50 (85 / 100) = Inr scores
             \<and> map fst scores = [1, 2])
   \<and> compute False [(1::int, [2])] 50 (85 / 100) = Inl InvalidInput"
proof -
  have k: "keys [(1::int, [2::int]), (2, [1])] = [1, 2]"
    by (simp add: keys_def)
  have ok: "\<not> ((50::int) \<le> 0 \<or> \<not> (0 < (85 / 100 :: real) \<and> (85 / 100 :: real) < 1)
          \<or> (\<exists>entry \<in> set [(1::int, [2]), (2, [1])]. \<exists>v \<in> set (snd entry).
                v \<notin> fst ` set [(1::int, [2::int]), (2, [1])]))"
    by simp
  have bad: "(50::int) \<le> 0 \<or> \<not> (0 < (85 / 100 :: real) \<and> (85 / 100 :: real) < 1)
          \<or> (\<exists>entry \<in> set [(1::int, [2])]. \<exists>v \<in> set (snd entry).
                v \<notin> fst ` set [(1::int, [2::int])])"
    by simp
  from compute_fails_exactly_on_invalid_input [of False "[(1::int, [2]), (2, [1])]" 50 "85 / 100"] ok k
  have a: "\<exists>scores. compute False [(1::int, [2]), (2, [1])] 50 (85 / 100) = Inr scores
             \<and> map fst scores = [1, 2]"
    by simp
  from compute_fails_exactly_on_invalid_input [of False "[(1::int, [2])]" 50 "85 / 100"] bad
  have b: "compute False [(1::int, [2])] 50 (85 / 100) = Inl InvalidInput"
    by blast
  from a b show ?thesis by (intro conjI)
qed


section \<open>The scores of the engine\<close>








lemma set_keys: "set (keys adj) = fst ` set adj"
  by (simp add: keys_def)












end
